theory Spec2Isabelle
  imports Complex_Main
begin

section \<open>Calendar dates (Python \<open>datetime.date\<close>)\<close>

text \<open>
  A \<open>date\<close> carries year, month and day. Python only constructs dates with
  \<open>1 \<le> year \<le> 9999\<close>, a month in \<open>1..12\<close> and a day that exists in that month;
  \<open>valid_date\<close> states this. \<open>toordinal\<close> is the proleptic Gregorian ordinal, and
  the difference of two dates in days is the difference of their ordinals.
\<close>

record date =
  year :: nat
  month :: nat
  day :: nat

definition is_leap :: "nat \<Rightarrow> bool" where
  "is_leap y = (y mod 4 = 0 \<and> (y mod 100 \<noteq> 0 \<or> y mod 400 = 0))"

definition days_in_month :: "nat \<Rightarrow> nat \<Rightarrow> nat" where
  "days_in_month y m =
     (if m = 2 \<and> is_leap y then 29
      else [31, 28, 31, 30, 31, 30, 31, 31, 30, 31, 30, 31] ! (m - 1))"

definition days_before_year :: "nat \<Rightarrow> int" where
  "days_before_year y =
     (let y' = int y - 1 in y' * 365 + y' div 4 - y' div 100 + y' div 400)"

definition days_before_month :: "nat \<Rightarrow> nat \<Rightarrow> int" where
  "days_before_month y m =
     int ([0, 31, 59, 90, 120, 151, 181, 212, 243, 273, 304, 334] ! (m - 1))
       + (if m > 2 \<and> is_leap y then 1 else 0)"

definition valid_date :: "date \<Rightarrow> bool" where
  "valid_date d =
     (1 \<le> year d \<and> year d \<le> 9999 \<and> 1 \<le> month d \<and> month d \<le> 12
      \<and> 1 \<le> day d \<and> day d \<le> days_in_month (year d) (month d))"

definition toordinal :: "date \<Rightarrow> int" where
  "toordinal d = days_before_year (year d) + days_before_month (year d) (month d) + int (day d)"

text \<open>\<open>(a - b).days\<close> for two dates.\<close>

definition days_between :: "date \<Rightarrow> date \<Rightarrow> int" where
  "days_between a b = toordinal a - toordinal b"

section \<open>Rendering numbers and dates as text\<close>

definition digit_char :: "nat \<Rightarrow> char" where
  "digit_char n = char_of (48 + n)"

text \<open>\<open>str(n)\<close> for a natural number.\<close>

fun str_nat :: "nat \<Rightarrow> string" where
  "str_nat n = (if n < 10 then [digit_char n] else str_nat (n div 10) @ [digit_char (n mod 10)])"

declare str_nat.simps [simp del]

definition str_int :: "int \<Rightarrow> string" where
  "str_int i = (if i < 0 then ''-'' @ str_nat (nat (- i)) else str_nat (nat i))"

text \<open>Left padding with zeros, as the \<open>%04d\<close> and \<open>%02d\<close> conversions do.\<close>

definition zfill :: "nat \<Rightarrow> string \<Rightarrow> string" where
  "zfill w s = replicate (w - length s) (CHR ''0'') @ s"

text \<open>\<open>date.isoformat()\<close>, that is \<open>"%04d-%02d-%02d" % (year, month, day)\<close>.\<close>

definition isoformat :: "date \<Rightarrow> string" where
  "isoformat d =
     zfill 4 (str_nat (year d)) @ ''-'' @ zfill 2 (str_nat (month d)) @ ''-''
       @ zfill 2 (str_nat (day d))"

section \<open>Decimal arithmetic (Python \<open>decimal.Decimal\<close>, default context)\<close>

text \<open>
  A \<open>Decimal\<close> is modelled by its numerical value, a rational number. Python's default
  context rounds the result of every arithmetic operation to \<open>prec = 28\<close> significant
  digits with \<open>ROUND_HALF_EVEN\<close>; \<open>dec_round\<close> is that rounding, so \<open>dec_div\<close>,
  \<open>dec_sub\<close> and \<open>dec_mul\<close> return the correctly rounded exact result. Division by
  zero raises. The exponent limits of the context (\<open>Emax\<close>, \<open>Emin\<close> at \<open>\<plusminus>999999\<close>), NaN
  and the infinities are not part of the model. \<open>Decimal(str(x))\<close> of a JSON number is
  the decimal that \<open>str\<close> prints, so it is the identity on values.
\<close>

type_synonym decimal = rat

datatype error =
    FMPRateLimitError
  | HTTPStatusError nat
  | TimeoutException
  | TransportError
  | DivisionByZero
  | InvalidOperation
  | HTTPException nat

text \<open>The number of decimal digits of a natural number, \<open>len(str(n))\<close>.\<close>

fun ndigits :: "nat \<Rightarrow> nat" where
  "ndigits n = (if n < 10 then 1 else Suc (ndigits (n div 10)))"

declare ndigits.simps [simp del]

text \<open>
  For \<open>x > 0\<close>, \<open>adjusted x\<close> is the exponent of the leading digit of \<open>x\<close>: the integer
  \<open>e\<close> with \<open>10\<^sup>e \<le> x < 10\<^sup>e\<^sup>+\<^sup>1\<close> (\<open>Decimal.adjusted()\<close>).
\<close>

definition adjusted :: "rat \<Rightarrow> int" where
  "adjusted x =
     (if 1 \<le> x then int (ndigits (nat \<lfloor>x\<rfloor>)) - 1
      else - int (ndigits (nat (\<lceil>1 / x\<rceil> - 1))))"

definition round_half_even :: "rat \<Rightarrow> int" where
  "round_half_even x =
     (let f = \<lfloor>x\<rfloor>; d = x - of_int f in
      if d < 1 / 2 then f
      else if 1 / 2 < d then f + 1
      else if even f then f else f + 1)"

definition prec :: nat where
  "prec = 28"

text \<open>
  Rounding to \<open>prec\<close> significant digits (\<open>Decimal._fix\<close>): the coefficient is the
  value scaled by the power of ten that leaves \<open>prec\<close> digits before the point, rounded
  half-even to an integer.
\<close>

definition dec_round :: "decimal \<Rightarrow> decimal" where
  "dec_round x =
     (if x = 0 then 0
      else let e = adjusted \<bar>x\<bar> - (int prec - 1)
           in sgn x * of_int (round_half_even (\<bar>x\<bar> / 10 powi e)) * 10 powi e)"

definition dec_div :: "decimal \<Rightarrow> decimal \<Rightarrow> error + decimal" where
  "dec_div a b =
     (if b = 0 then (if a = 0 then Inl InvalidOperation else Inl DivisionByZero)
      else Inr (dec_round (a / b)))"

definition dec_sub :: "decimal \<Rightarrow> decimal \<Rightarrow> decimal" where
  "dec_sub a b = dec_round (a - b)"

definition dec_mul :: "decimal \<Rightarrow> decimal \<Rightarrow> decimal" where
  "dec_mul a b = dec_round (a * b)"

text \<open>The format specification \<open>.2f\<close> applied to a Decimal: two places, half-even.\<close>

definition format_2f :: "decimal \<Rightarrow> string" where
  "format_2f x =
     (let n = nat (round_half_even (\<bar>x\<bar> * 100))
      in (if x < 0 then ''-'' else []) @ str_nat (n div 100) @ ''.'' @ zfill 2 (str_nat (n mod 100)))"

section \<open>Persistent data model\<close>

datatype PositionStatus = OPEN | CLOSED

datatype ExitReason = STOP_LOSS | TIME_EXIT

datatype AlertType = ENTRY | EXIT

fun ExitReason_value :: "ExitReason \<Rightarrow> string" where
  "ExitReason_value STOP_LOSS = ''STOP_LOSS''"
| "ExitReason_value TIME_EXIT = ''TIME_EXIT''"

text \<open>
  Identifiers (\<open>uuid4\<close>) are natural numbers drawn from a counter kept beside the tables;
  a \<open>datetime\<close> is a number of microseconds. The columns that hold the value of an
  enumeration are typed by the enumeration.
\<close>

type_synonym uuid = nat

type_synonym datetime = int

record Position =
  pos_id :: uuid
  pos_symbol :: string
  entry_date :: date
  entry_price :: decimal
  status :: PositionStatus
  exit_date :: "date option"
  exit_price :: "decimal option"
  exit_reason :: "ExitReason option"
  pos_created_at :: datetime
  pos_updated_at :: datetime

record Alert =
  alert_id :: uuid
  event_key :: string
  alert_type :: AlertType
  alert_symbol :: string
  as_of :: date
  message :: string
  created_at :: datetime
  sent_at :: "datetime option"

record SymbolsCache =
  cache_symbol :: string
  updated_at :: datetime

record db =
  positions :: "Position list"
  alerts :: "Alert list"
  symbols_cache :: "SymbolsCache list"
  uuid_counter :: nat

section \<open>Market-data client\<close>

text \<open>
  A JSON object of a response is read only through \<open>get("symbol")\<close>, \<open>get("date")\<close> and
  \<open>get("close")\<close>; \<open>None\<close> stands for a missing key or a JSON null. A response body is a
  list of such objects or some other JSON value.
\<close>

record item =
  item_symbol :: "string option"
  item_date :: "string option"
  item_close :: "decimal option"

datatype json = JList "item list" | JOther

text \<open>What one HTTP attempt gives: a response with its status code, or an exception of the transport.\<close>

datatype attempt = Response nat json | Timeout | ConnectFailure

datatype endpoint = Sp500Constituent | EarningsCalendar string | HistoricalPriceEodFull string

text \<open>
  The provider: for every request, the outcome of its first, second, third attempt.
  The same request always meets the same outcomes.
\<close>

type_synonym fmp = "endpoint \<Rightarrow> nat \<Rightarrow> attempt"

text \<open>
  The body of \<open>_request\<close>: status 429 raises the rate-limit error, then
  \<open>raise_for_status\<close> raises \<open>HTTPStatusError\<close> for every status outside \<open>200..299\<close>.
\<close>

fun request_once :: "attempt \<Rightarrow> error + json" where
  "request_once Timeout = Inl TimeoutException"
| "request_once ConnectFailure = Inl TransportError"
| "request_once (Response status_code body) =
     (if status_code = 429 then Inl FMPRateLimitError
      else if 200 \<le> status_code \<and> status_code \<le> 299 then Inr body
      else Inl (HTTPStatusError status_code))"

text \<open>\<open>retry_if_exception_type((httpx.HTTPStatusError, httpx.TimeoutException))\<close>\<close>

fun retry_if_exception_type :: "error \<Rightarrow> bool" where
  "retry_if_exception_type (HTTPStatusError c) = True"
| "retry_if_exception_type TimeoutException = True"
| "retry_if_exception_type e = False"

definition stop_after_attempt :: nat where
  "stop_after_attempt = 3"

text \<open>\<open>wait_exponential(multiplier, min, max)\<close> before the attempt that follows attempt \<open>k\<close>, in seconds.\<close>

definition wait_exponential :: "nat \<Rightarrow> nat \<Rightarrow> nat \<Rightarrow> nat \<Rightarrow> nat" where
  "wait_exponential multiplier mn mx k = max (max 0 mn) (min (multiplier * 2 ^ (k - 1)) mx)"

text \<open>
  The retrying call, from attempt \<open>k\<close> on: the result, the number of the last attempt made,
  and the waits slept between attempts. With \<open>reraise=True\<close> the last exception is raised
  when the attempts are used up.
\<close>

function retrying :: "nat \<Rightarrow> (nat \<Rightarrow> attempt) \<Rightarrow> (error + json) \<times> nat \<times> nat list" where
  "retrying k src =
     (case request_once (src k) of
        Inr body \<Rightarrow> (Inr body, k, [])
      | Inl e \<Rightarrow>
          if retry_if_exception_type e \<and> k < stop_after_attempt
          then (case retrying (Suc k) src of (r, m, ws) \<Rightarrow> (r, m, wait_exponential 1 2 10 k # ws))
          else (Inl e, k, []))"
  by pat_completeness auto
termination
  by (relation "measure (\<lambda>(k, src). stop_after_attempt - k)") auto

declare retrying.simps [simp del]

definition request :: "fmp \<Rightarrow> endpoint \<Rightarrow> error + json" where
  "request client ep = fst (retrying 1 (client ep))"

text \<open>The truthy values of \<open>item.get("symbol")\<close>, in order.\<close>

fun symbols_of :: "item list \<Rightarrow> string list" where
  "symbols_of [] = []"
| "symbols_of (it # its) =
     (case item_symbol it of
        None \<Rightarrow> symbols_of its
      | Some s \<Rightarrow> if s = [] then symbols_of its else s # symbols_of its)"

definition get_sp500_constituents :: "fmp \<Rightarrow> error + string list" where
  "get_sp500_constituents client =
     (case request client Sp500Constituent of
        Inl e \<Rightarrow> Inl e
      | Inr JOther \<Rightarrow> Inr []
      | Inr (JList data) \<Rightarrow> Inr (symbols_of data))"

text \<open>\<open>strftime("%Y-%m-%d")\<close>; it agrees with \<open>isoformat\<close> from the year 1000 on.\<close>

definition strftime_Ymd :: "date \<Rightarrow> string" where
  "strftime_Ymd d = isoformat d"

definition get_earnings_calendar :: "fmp \<Rightarrow> date \<Rightarrow> error + string list" where
  "get_earnings_calendar client d =
     (case request client (EarningsCalendar (strftime_Ymd d)) of
        Inl e \<Rightarrow> Inl e
      | Inr JOther \<Rightarrow> Inr []
      | Inr (JList data) \<Rightarrow> Inr (symbols_of data))"

definition get_historical_prices :: "fmp \<Rightarrow> string \<Rightarrow> nat \<Rightarrow> error + item list" where
  "get_historical_prices client symbol timeseries =
     (case request client (HistoricalPriceEodFull symbol) of
        Inl e \<Rightarrow> Inl e
      | Inr JOther \<Rightarrow> Inr []
      | Inr (JList data) \<Rightarrow> Inr (take timeseries data))"

text \<open>The loop \<open>for i, item in enumerate(historical)\<close> that stops at the first match.\<close>

fun first_index :: "('a \<Rightarrow> bool) \<Rightarrow> 'a list \<Rightarrow> nat option" where
  "first_index P [] = None"
| "first_index P (x # xs) =
     (if P x then Some 0 else map_option Suc (first_index P xs))"

definition price_pair :: "item list \<Rightarrow> string \<Rightarrow> (decimal \<times> decimal) option" where
  "price_pair historical as_of_str =
     (if historical = [] then None
      else case first_index (\<lambda>it. item_date it = Some as_of_str) historical of
        None \<Rightarrow> None
      | Some as_of_idx \<Rightarrow>
          if as_of_idx + 1 \<ge> length historical then None
          else (case (item_close (historical ! as_of_idx),
                      item_close (historical ! (as_of_idx + 1))) of
                  (Some as_of_close, Some prev_close) \<Rightarrow> Some (as_of_close, prev_close)
                | _ \<Rightarrow> None))"

definition get_price_data_for_date ::
  "fmp \<Rightarrow> string \<Rightarrow> date \<Rightarrow> error + (decimal \<times> decimal) option" where
  "get_price_data_for_date client symbol d =
     (case get_historical_prices client symbol 20 of
        Inl e \<Rightarrow> Inl e
      | Inr historical \<Rightarrow> Inr (price_pair historical (strftime_Ymd d)))"

definition get_close_price :: "fmp \<Rightarrow> string \<Rightarrow> date \<Rightarrow> error + decimal option" where
  "get_close_price client symbol d =
     (case get_historical_prices client symbol 20 of
        Inl e \<Rightarrow> Inl e
      | Inr historical \<Rightarrow>
          Inr (case find (\<lambda>it. item_date it = Some (strftime_Ymd d)) historical of
                 None \<Rightarrow> None
               | Some it \<Rightarrow> item_close it))"

section \<open>Strategy engine\<close>

definition ENTRY_RETURN_MIN :: decimal where
  "ENTRY_RETURN_MIN = - 30 / 100"

definition ENTRY_RETURN_MAX :: decimal where
  "ENTRY_RETURN_MAX = - 5 / 100"

definition STOP_LOSS_THRESHOLD :: decimal where
  "STOP_LOSS_THRESHOLD = - 10 / 100"

definition MAX_HOLDING_DAYS :: int where
  "MAX_HOLDING_DAYS = 50"

subsection \<open>Symbol universe and its cache\<close>

text \<open>\<open>timedelta(hours=h)\<close> in microseconds.\<close>

definition timedelta_hours :: "int \<Rightarrow> int" where
  "timedelta_hours h = h * 3600 * 1000000"

fun oldest :: "datetime list \<Rightarrow> datetime" where
  "oldest [t] = t"
| "oldest (t # ts) = min t (oldest ts)"

definition cache_valid :: "int \<Rightarrow> datetime \<Rightarrow> SymbolsCache list \<Rightarrow> bool" where
  "cache_valid ttl_hours now cached =
     (cached \<noteq> [] \<and> now - oldest (map updated_at cached) < timedelta_hours ttl_hours)"

definition get_sp500_symbols :: "fmp \<Rightarrow> int \<Rightarrow> datetime \<Rightarrow> db \<Rightarrow> error + db \<times> string list" where
  "get_sp500_symbols client ttl_hours now d =
     (let cached = symbols_cache d in
      if cache_valid ttl_hours now cached then Inr (d, map cache_symbol cached)
      else case get_sp500_constituents client of
        Inl e \<Rightarrow> Inl e
      | Inr symbols \<Rightarrow>
          if symbols = [] then
            (if cached \<noteq> [] then Inr (d, map cache_symbol cached) else Inr (d, []))
          else Inr (d\<lparr>symbols_cache :=
                        map (\<lambda>s. \<lparr>cache_symbol = s, updated_at = now\<rparr>) symbols\<rparr>,
                    symbols))"

subsection \<open>Event keys and messages\<close>

definition generate_entry_event_key :: "string \<Rightarrow> date \<Rightarrow> string" where
  "generate_entry_event_key symbol d = ''ENTRY|'' @ symbol @ ''|'' @ isoformat d"

definition generate_exit_event_key :: "string \<Rightarrow> date \<Rightarrow> date \<Rightarrow> string \<Rightarrow> string" where
  "generate_exit_event_key symbol d_entry d_exit reason =
     ''EXIT|'' @ symbol @ ''|'' @ isoformat d_entry @ ''|'' @ isoformat d_exit @ ''|'' @ reason"

definition newline :: char where
  "newline = char_of (10 :: nat)"

definition format_entry_message :: "string \<Rightarrow> date \<Rightarrow> decimal \<Rightarrow> decimal \<Rightarrow> string" where
  "format_entry_message symbol d ret price =
     ''[ENTRY] '' @ symbol @ '' '' @ isoformat d @ [newline]
       @ ''Earnings day return: '' @ format_2f (dec_mul ret 100) @ ''%'' @ [newline]
       @ ''Entry price (close): '' @ format_2f price"

definition format_exit_message ::
  "string \<Rightarrow> date \<Rightarrow> string \<Rightarrow> decimal \<Rightarrow> decimal \<Rightarrow> int \<Rightarrow> string" where
  "format_exit_message symbol d reason pnl price holding_days =
     (let reason_label =
            (if reason = ExitReason_value STOP_LOSS then ''STOP_LOSS'' else ''TIME_EXIT'')
      in ''[EXIT-'' @ reason_label @ ''] '' @ symbol @ '' '' @ isoformat d @ [newline]
           @ ''PnL: '' @ format_2f (dec_mul pnl 100) @ ''%'' @ [newline]
           @ ''Exit price (close): '' @ format_2f price @ [newline]
           @ ''Holding days: '' @ str_int holding_days)"

subsection \<open>Conditional inserts and the update of a position\<close>

text \<open>The unique constraints: a position per symbol and entry date, an alert per event key.\<close>

definition position_exists :: "db \<Rightarrow> string \<Rightarrow> date \<Rightarrow> bool" where
  "position_exists s symbol d = (\<exists>p \<in> set (positions s). pos_symbol p = symbol \<and> entry_date p = d)"

definition alert_exists :: "db \<Rightarrow> string \<Rightarrow> bool" where
  "alert_exists s key = (\<exists>a \<in> set (alerts s). event_key a = key)"

text \<open>\<open>insert(Position)...on_conflict_do_nothing(index_elements=["symbol", "entry_date"])\<close>\<close>

definition insert_position :: "string \<Rightarrow> date \<Rightarrow> decimal \<Rightarrow> datetime \<Rightarrow> db \<Rightarrow> db" where
  "insert_position symbol d price now s =
     (if position_exists s symbol d
      then s\<lparr>uuid_counter := Suc (uuid_counter s)\<rparr>
      else s\<lparr>positions := positions s @
                [\<lparr>pos_id = uuid_counter s, pos_symbol = symbol, entry_date = d, entry_price = price,
                  status = OPEN, exit_date = None, exit_price = None, exit_reason = None,
                  pos_created_at = now, pos_updated_at = now\<rparr>],
             uuid_counter := Suc (uuid_counter s)\<rparr>)"

text \<open>
  \<open>insert(Alert)...on_conflict_do_nothing(index_elements=["event_key"])\<close>, with the
  \<open>rowcount\<close> of the statement.
\<close>

definition insert_alert ::
  "string \<Rightarrow> AlertType \<Rightarrow> string \<Rightarrow> date \<Rightarrow> string \<Rightarrow> datetime \<Rightarrow> db \<Rightarrow> db \<times> nat" where
  "insert_alert key ty symbol d msg now s =
     (if alert_exists s key
      then (s\<lparr>uuid_counter := Suc (uuid_counter s)\<rparr>, 0)
      else (s\<lparr>alerts := alerts s @
                 [\<lparr>alert_id = uuid_counter s, event_key = key, alert_type = ty,
                   alert_symbol = symbol, as_of = d, message = msg, created_at = now,
                   sent_at = None\<rparr>],
              uuid_counter := Suc (uuid_counter s)\<rparr>, 1))"

text \<open>\<open>update(Position).where(Position.id == position.id).values(...)\<close>\<close>

definition close_position ::
  "uuid \<Rightarrow> date \<Rightarrow> decimal \<Rightarrow> ExitReason \<Rightarrow> datetime \<Rightarrow> db \<Rightarrow> db" where
  "close_position pid d price reason now s =
     s\<lparr>positions :=
         map (\<lambda>p. if pos_id p = pid
                   then p\<lparr>status := CLOSED, exit_date := Some d, exit_price := Some price,
                          exit_reason := Some reason, pos_updated_at := now\<rparr>
                   else p)
             (positions s)\<rparr>"

subsection \<open>Entry scan\<close>

definition earnings_return :: "decimal \<Rightarrow> decimal \<Rightarrow> error + decimal" where
  "earnings_return as_of_close prev_close =
     (case dec_div as_of_close prev_close of
        Inl e \<Rightarrow> Inl e
      | Inr q \<Rightarrow> Inr (dec_sub q 1))"

definition entry_condition :: "decimal \<Rightarrow> bool" where
  "entry_condition r = (ENTRY_RETURN_MIN \<le> r \<and> r \<le> ENTRY_RETURN_MAX)"


text \<open>The body of the \<open>try\<close> for one candidate: the new state and its addition to \<open>new_alerts\<close>.\<close>

definition process_candidate ::
  "fmp \<Rightarrow> date \<Rightarrow> datetime \<Rightarrow> string \<Rightarrow> db \<Rightarrow> error + db \<times> nat" where
  "process_candidate client d now symbol s =
     (case get_price_data_for_date client symbol d of
        Inl e \<Rightarrow> Inl e
      | Inr None \<Rightarrow> Inr (s, 0)
      | Inr (Some (as_of_close, prev_close)) \<Rightarrow>
          (case earnings_return as_of_close prev_close of
             Inl e \<Rightarrow> Inl e
           | Inr r \<Rightarrow>
               if \<not> entry_condition r then Inr (s, 0)
               else
                 let s1 = insert_position symbol d as_of_close now s;
                     key = generate_entry_event_key symbol d;
                     msg = format_entry_message symbol d r as_of_close;
                     (s2, rowcount) = insert_alert key ENTRY symbol d msg now s1
                 in Inr (s2, if rowcount > 0 then 1 else 0)))"

fun scan_entries_loop ::
  "fmp \<Rightarrow> date \<Rightarrow> datetime \<Rightarrow> string list \<Rightarrow> db \<times> nat \<Rightarrow> db \<times> nat" where
  "scan_entries_loop client d now [] (s, new_alerts) = (s, new_alerts)"
| "scan_entries_loop client d now (symbol # rest) (s, new_alerts) =
     (case process_candidate client d now symbol s of
        Inl e \<Rightarrow> scan_entries_loop client d now rest (s, new_alerts)
      | Inr (s', k) \<Rightarrow> scan_entries_loop client d now rest (s', new_alerts + k))"

definition scan_entries :: "fmp \<Rightarrow> int \<Rightarrow> date \<Rightarrow> datetime \<Rightarrow> db \<Rightarrow> error + db \<times> nat" where
  "scan_entries client ttl_hours d now s =
     (case get_sp500_symbols client ttl_hours now s of
        Inl e \<Rightarrow> Inl e
      | Inr (s0, symbols) \<Rightarrow>
          if set symbols = {} then Inr (s0, 0)
          else case get_earnings_calendar client d of
            Inl e \<Rightarrow> Inl e
          | Inr earnings_symbols \<Rightarrow>
              let candidates = filter (\<lambda>x. x \<in> set symbols) earnings_symbols
              in Inr (scan_entries_loop client d now candidates (s0, 0)))"

subsection \<open>Exit scan\<close>

definition pnl_of :: "decimal \<Rightarrow> decimal \<Rightarrow> error + decimal" where
  "pnl_of close_price price =
     (case dec_div close_price price of
        Inl e \<Rightarrow> Inl e
      | Inr q \<Rightarrow> Inr (dec_sub q 1))"

definition exit_decision :: "decimal \<Rightarrow> int \<Rightarrow> ExitReason option" where
  "exit_decision pnl holding_days =
     (if pnl \<le> STOP_LOSS_THRESHOLD then Some STOP_LOSS
      else if holding_days \<ge> MAX_HOLDING_DAYS then Some TIME_EXIT
      else None)"

text \<open>
  The exit evaluation of a position (the metrics and the conditions of the loop body):
  holding days, profit and loss, and the exit reason if any.
\<close>

definition evaluate_exit ::
  "decimal \<Rightarrow> decimal \<Rightarrow> date \<Rightarrow> date \<Rightarrow> error + int \<times> decimal \<times> ExitReason option" where
  "evaluate_exit price close_price d_entry d =
     (let holding_days = days_between d d_entry
      in case pnl_of close_price price of
           Inl e \<Rightarrow> Inl e
         | Inr pnl \<Rightarrow> Inr (holding_days, pnl, exit_decision pnl holding_days))"

definition process_position ::
  "fmp \<Rightarrow> date \<Rightarrow> datetime \<Rightarrow> Position \<Rightarrow> db \<Rightarrow> error + db \<times> nat" where
  "process_position client d now p s =
     (case get_close_price client (pos_symbol p) d of
        Inl e \<Rightarrow> Inl e
      | Inr None \<Rightarrow> Inr (s, 0)
      | Inr (Some close_price) \<Rightarrow>
          (case evaluate_exit (entry_price p) close_price (entry_date p) d of
             Inl e \<Rightarrow> Inl e
           | Inr (holding_days, pnl, None) \<Rightarrow> Inr (s, 0)
           | Inr (holding_days, pnl, Some reason) \<Rightarrow>
               let s1 = close_position (pos_id p) d close_price reason now s;
                   key = generate_exit_event_key (pos_symbol p) (entry_date p) d
                           (ExitReason_value reason);
                   msg = format_exit_message (pos_symbol p) d (ExitReason_value reason)
                           pnl close_price holding_days;
                   (s2, rowcount) = insert_alert key EXIT (pos_symbol p) d msg now s1
               in Inr (s2, if rowcount > 0 then 1 else 0)))"

fun scan_exits_loop ::
  "fmp \<Rightarrow> date \<Rightarrow> datetime \<Rightarrow> Position list \<Rightarrow> db \<times> nat \<Rightarrow> db \<times> nat" where
  "scan_exits_loop client d now [] (s, new_alerts) = (s, new_alerts)"
| "scan_exits_loop client d now (p # rest) (s, new_alerts) =
     (case process_position client d now p s of
        Inl e \<Rightarrow> scan_exits_loop client d now rest (s, new_alerts)
      | Inr (s', k) \<Rightarrow> scan_exits_loop client d now rest (s', new_alerts + k))"

definition scan_exits :: "fmp \<Rightarrow> date \<Rightarrow> datetime \<Rightarrow> db \<Rightarrow> db \<times> nat" where
  "scan_exits client d now s =
     (let open_positions = filter (\<lambda>p. status p = OPEN) (positions s)
      in scan_exits_loop client d now open_positions (s, 0))"

subsection \<open>Daily job\<close>

definition run_daily_job ::
  "fmp \<Rightarrow> int \<Rightarrow> date \<Rightarrow> datetime \<Rightarrow> db \<Rightarrow> error + db \<times> nat \<times> nat" where
  "run_daily_job client ttl_hours d now s =
     (case scan_entries client ttl_hours d now s of
        Inl e \<Rightarrow> Inl e
      | Inr (s1, new_entries) \<Rightarrow>
          (case scan_exits client d now s1 of
             (s2, new_exits) \<Rightarrow> Inr (s2, new_entries, new_exits)))"

subsection \<open>The decision of an iteration, apart from its writes\<close>

text \<open>
  What the body of the entry loop decides for a candidate before it writes anything: an
  error (the candidate is skipped), no signal, or a signal with the close and the return.
\<close>

definition entry_outcome :: "fmp \<Rightarrow> date \<Rightarrow> string \<Rightarrow> error + (decimal \<times> decimal) option" where
  "entry_outcome client d symbol =
     (case get_price_data_for_date client symbol d of
        Inl e \<Rightarrow> Inl e
      | Inr None \<Rightarrow> Inr None
      | Inr (Some (as_of_close, prev_close)) \<Rightarrow>
          (case earnings_return as_of_close prev_close of
             Inl e \<Rightarrow> Inl e
           | Inr r \<Rightarrow> if entry_condition r then Inr (Some (as_of_close, r)) else Inr None))"

text \<open>The same for the exit loop: an error, no exit, or an exit with its close, metrics and reason.\<close>

definition exit_outcome ::
  "fmp \<Rightarrow> date \<Rightarrow> Position \<Rightarrow> error + (decimal \<times> int \<times> decimal \<times> ExitReason) option" where
  "exit_outcome client d p =
     (case get_close_price client (pos_symbol p) d of
        Inl e \<Rightarrow> Inl e
      | Inr None \<Rightarrow> Inr None
      | Inr (Some close_price) \<Rightarrow>
          (case evaluate_exit (entry_price p) close_price (entry_date p) d of
             Inl e \<Rightarrow> Inl e
           | Inr (holding_days, pnl, None) \<Rightarrow> Inr None
           | Inr (holding_days, pnl, Some reason) \<Rightarrow>
               Inr (Some (close_price, holding_days, pnl, reason))))"

text \<open>Whether an iteration decides to write: a candidate that signals, a position that exits.\<close>

definition emits :: "fmp \<Rightarrow> date \<Rightarrow> string \<Rightarrow> bool" where
  "emits client d symbol =
     (case entry_outcome client d symbol of Inr (Some x) \<Rightarrow> True | _ \<Rightarrow> False)"

definition triggers :: "fmp \<Rightarrow> date \<Rightarrow> Position \<Rightarrow> bool" where
  "triggers client d p =
     (case exit_outcome client d p of Inr (Some x) \<Rightarrow> True | _ \<Rightarrow> False)"

text \<open>
  How a row of the positions table is carried through an exit scan that closes the rows
  whose id is in \<open>ids\<close>: its identity and entry fields stay, a closed row stays closed,
  a row that is still open is untouched, and the rows with an id in \<open>ids\<close> are closed.
\<close>

definition carried :: "uuid set \<Rightarrow> Position \<Rightarrow> Position \<Rightarrow> bool" where
  "carried ids r r' =
     (pos_id r' = pos_id r \<and> pos_symbol r' = pos_symbol r \<and> entry_date r' = entry_date r
      \<and> entry_price r' = entry_price r \<and> pos_created_at r' = pos_created_at r
      \<and> (status r = CLOSED \<longrightarrow> status r' = CLOSED)
      \<and> (status r' = OPEN \<longrightarrow> r' = r)
      \<and> (pos_id r \<in> ids \<longrightarrow> status r' = CLOSED))"

section \<open>Acknowledging an alert\<close>

record MarkSentResponse =
  success :: bool
  response_id :: uuid
  response_sent_at :: "datetime option"

definition mark_alert_sent :: "uuid \<Rightarrow> datetime \<Rightarrow> db \<Rightarrow> error + db \<times> MarkSentResponse" where
  "mark_alert_sent aid now s =
     (case find (\<lambda>a. alert_id a = aid) (alerts s) of
        None \<Rightarrow> Inl (HTTPException 404)
      | Some alert \<Rightarrow>
          (case sent_at alert of
             Some t \<Rightarrow>
               Inr (s, \<lparr>success = True, response_id = alert_id alert, response_sent_at = Some t\<rparr>)
           | None \<Rightarrow>
               Inr (s\<lparr>alerts :=
                        map (\<lambda>a. if alert_id a = aid then a\<lparr>sent_at := Some now\<rparr> else a)
                            (alerts s)\<rparr>,
                    \<lparr>success = True, response_id = alert_id alert,
                     response_sent_at = Some now\<rparr>)))"

section \<open>Example data\<close>

text \<open>A store with a single alert that has not been sent.\<close>

definition example_alert :: Alert where
  "example_alert =
     \<lparr>alert_id = 7, event_key = ''ENTRY|AAPL|2025-01-15'', alert_type = ENTRY,
      alert_symbol = ''AAPL'', as_of = \<lparr>year = 2025, month = 1, day = 15\<rparr>,
      message = ''[ENTRY] AAPL 2025-01-15'', created_at = 1000, sent_at = None\<rparr>"

definition example_store :: db where
  "example_store = \<lparr>positions = [], alerts = [example_alert], symbols_cache = [], uuid_counter = 8\<rparr>"

text \<open>A provider whose price history of every symbol is three trading days, newest first.\<close>

definition example_history :: "item list" where
  "example_history =
     [\<lparr>item_symbol = None, item_date = Some ''2025-01-15'', item_close = Some 150\<rparr>,
      \<lparr>item_symbol = None, item_date = Some ''2025-01-14'', item_close = Some 148\<rparr>,
      \<lparr>item_symbol = None, item_date = Some ''2025-01-13'', item_close = Some 147\<rparr>]"

definition example_client :: fmp where
  "example_client ep k = Response 200 (JList example_history)"




text \<open>Attempt sources: a resource that is never found, and a rate limit hit at once.\<close>

definition always_404 :: "nat \<Rightarrow> attempt" where
  "always_404 k = Response 404 JOther"

definition rate_limited :: "nat \<Rightarrow> attempt" where
  "rate_limited k = Response 429 JOther"

definition recovering :: "nat \<Rightarrow> attempt" where
  "recovering k = (if k = 1 then Timeout else if k = 2 then Response 503 JOther
                   else Response 200 (JList []))"

text \<open>
  A provider that lists two constituents, reports earnings of \<open>BBB\<close> (and of a symbol
  \<open>BAD\<close> outside the index), answers the price request for \<open>BAD\<close> with a rate limit and
  every other price request with a close of 88 after a close of 100.
\<close>

definition listed :: "string \<Rightarrow> item" where
  "listed symbol = \<lparr>item_symbol = Some symbol, item_date = None, item_close = None\<rparr>"

definition quote :: "string \<Rightarrow> decimal \<Rightarrow> item" where
  "quote ds c = \<lparr>item_symbol = None, item_date = Some ds, item_close = Some c\<rparr>"

definition market_client :: fmp where
  "market_client ep k =
     (case ep of
        Sp500Constituent \<Rightarrow> Response 200 (JList [listed ''AAA'', listed ''BBB''])
      | EarningsCalendar ds \<Rightarrow> Response 200 (JList [listed ''BAD'', listed ''BBB''])
      | HistoricalPriceEodFull symbol \<Rightarrow>
          if symbol = ''BAD'' then Response 429 JOther
          else Response 200 (JList [quote ''2025-01-15'' 88, quote ''2025-01-14'' 100]))"

definition day0 :: date where
  "day0 = \<lparr>year = 2025, month = 1, day = 15\<rparr>"

text \<open>Two stores without positions and alerts: one has cached both constituents, one only \<open>AAA\<close>.\<close>

definition warm_store :: db where
  "warm_store =
     \<lparr>positions = [], alerts = [],
      symbols_cache = [\<lparr>cache_symbol = ''AAA'', updated_at = 0\<rparr>,
                       \<lparr>cache_symbol = ''BBB'', updated_at = 0\<rparr>],
      uuid_counter = 0\<rparr>"

definition stale_store :: db where
  "stale_store =
     \<lparr>positions = [], alerts = [],
      symbols_cache = [\<lparr>cache_symbol = ''AAA'', updated_at = 0\<rparr>],
      uuid_counter = 0\<rparr>"

section \<open>Rendering of numbers and dates\<close>

lemma of_char_digit_char: "a < 10 \<Longrightarrow> of_char (digit_char a) = 48 + a"
  by (simp add: digit_char_def take_bit_nat_eq_self)

lemma digit_char_inj: "a < 10 \<Longrightarrow> b < 10 \<Longrightarrow> digit_char a = digit_char b \<longleftrightarrow> a = b"
  by (metis of_char_digit_char add_left_cancel)

lemma digit_char_0: "digit_char 0 = CHR ''0''"
  unfolding digit_char_def by code_simp

lemma str_nat_1: "n < 10 \<Longrightarrow> str_nat n = [digit_char n]"
  by (simp add: str_nat.simps[of n])

lemma str_nat_2: "10 \<le> n \<Longrightarrow> n < 100 \<Longrightarrow> str_nat n = [digit_char (n div 10), digit_char (n mod 10)]"
  by (simp add: str_nat.simps[of n] str_nat_1)

lemma str_nat_3: "100 \<le> n \<Longrightarrow> n < 1000 \<Longrightarrow> str_nat n = [digit_char (n div 100), digit_char (n div 10 mod 10), digit_char (n mod 10)]"
  by (simp add: str_nat.simps[of n] str_nat_2 div_mult2_eq[symmetric] less_mult_imp_div_less le_div_geq)

lemma str_nat_4: "1000 \<le> n \<Longrightarrow> n < 10000 \<Longrightarrow> str_nat n = [digit_char (n div 1000), digit_char (n div 100 mod 10), digit_char (n div 10 mod 10), digit_char (n mod 10)]"
  by (simp add: str_nat.simps[of n] str_nat_3 div_mult2_eq[symmetric] less_mult_imp_div_less)

lemma zfill2: "n < 100 \<Longrightarrow> zfill 2 (str_nat n) = [digit_char (n div 10), digit_char (n mod 10)]"
  by (cases "n < 10") (simp_all add: str_nat_1 str_nat_2 zfill_def digit_char_0)

lemma zfill4: "n < 10000 \<Longrightarrow> zfill 4 (str_nat n) =
   [digit_char (n div 1000), digit_char (n div 100 mod 10), digit_char (n div 10 mod 10), digit_char (n mod 10)]"
  apply (cases "n < 10")
   apply (simp add: str_nat_1 zfill_def digit_char_0 numeral_3_eq_3)
  apply (cases "n < 100")
   apply (simp add: str_nat_2 zfill_def digit_char_0 numeral_2_eq_2)
  apply (cases "n < 1000")
   apply (simp add: str_nat_3 zfill_def digit_char_0)
  apply (simp add: str_nat_4 zfill_def)
  done

lemma days_in_month_le: "1 \<le> m \<Longrightarrow> m \<le> 12 \<Longrightarrow> days_in_month y m \<le> 31"
proof -
  assume "1 \<le> m" "m \<le> 12"
  then have "m = 1 \<or> m = 2 \<or> m = 3 \<or> m = 4 \<or> m = 5 \<or> m = 6 \<or> m = 7 \<or> m = 8 \<or> m = 9
      \<or> m = 10 \<or> m = 11 \<or> m = 12" by arith
  then show ?thesis
    by (elim disjE) (simp_all add: days_in_month_def)
qed

lemma isoformat_digits:
  assumes "valid_date d"
  shows "isoformat d =
    [digit_char (year d div 1000), digit_char (year d div 100 mod 10),
     digit_char (year d div 10 mod 10), digit_char (year d mod 10), CHR ''-'',
     digit_char (month d div 10), digit_char (month d mod 10), CHR ''-'',
     digit_char (day d div 10), digit_char (day d mod 10)]"
proof -
  have y: "year d < 10000" and m: "month d < 100" using assms by (simp_all add: valid_date_def)
  have "day d \<le> 31" using assms days_in_month_le[of "month d" "year d"]
    by (simp add: valid_date_def)
  then have dd: "day d < 100" by simp
  show ?thesis
    by (simp add: isoformat_def zfill4[OF y] zfill2[OF m] zfill2[OF dd])
qed

lemma length_isoformat: "valid_date d \<Longrightarrow> length (isoformat d) = 10"
  by (simp add: isoformat_digits)

lemma nat_of_digits2:
  fixes a b :: nat
  assumes "a div 10 = b div 10" "a mod 10 = b mod 10"
  shows "a = b"
  using assms by (metis div_mult_mod_eq)

lemma nat_of_digits4:
  fixes a b :: nat
  assumes "a div 1000 = b div 1000" "a div 100 mod 10 = b div 100 mod 10"
    "a div 10 mod 10 = b div 10 mod 10" "a mod 10 = b mod 10"
  shows "a = b"
proof -
  have "a div 100 div 10 = b div 100 div 10"
    using assms(1) by (simp add: div_mult2_eq[symmetric])
  then have h: "a div 100 = b div 100"
    using assms(2) by (rule nat_of_digits2)
  have "a div 10 div 10 = b div 10 div 10"
    using h by (simp add: div_mult2_eq[symmetric])
  then have "a div 10 = b div 10"
    using assms(3) by (rule nat_of_digits2)
  then show ?thesis
    using assms(4) by (rule nat_of_digits2)
qed

lemma isoformat_inj:
  assumes "valid_date a" "valid_date b" "isoformat a = isoformat b"
  shows "a = b"
proof -
  have ya: "year a < 10000" and yb: "year b < 10000"
    and ma: "month a \<le> 12" and mb: "month b \<le> 12"
    using assms by (simp_all add: valid_date_def)
  have da: "day a \<le> 31" using assms(1) days_in_month_le[of "month a" "year a"]
    by (simp add: valid_date_def)
  have db: "day b \<le> 31" using assms(2) days_in_month_le[of "month b" "year b"]
    by (simp add: valid_date_def)
  from assms have eq:
    "digit_char (year a div 1000) = digit_char (year b div 1000)"
    "digit_char (year a div 100 mod 10) = digit_char (year b div 100 mod 10)"
    "digit_char (year a div 10 mod 10) = digit_char (year b div 10 mod 10)"
    "digit_char (year a mod 10) = digit_char (year b mod 10)"
    "digit_char (month a div 10) = digit_char (month b div 10)"
    "digit_char (month a mod 10) = digit_char (month b mod 10)"
    "digit_char (day a div 10) = digit_char (day b div 10)"
    "digit_char (day a mod 10) = digit_char (day b mod 10)"
    by (simp_all add: isoformat_digits)
  have "year a div 1000 = year b div 1000"
    using eq(1) ya yb by (subst (asm) digit_char_inj) simp_all
  moreover have "year a div 100 mod 10 = year b div 100 mod 10"
    using eq(2) by (subst (asm) digit_char_inj) simp_all
  moreover have "year a div 10 mod 10 = year b div 10 mod 10"
    using eq(3) by (subst (asm) digit_char_inj) simp_all
  moreover have "year a mod 10 = year b mod 10"
    using eq(4) by (subst (asm) digit_char_inj) simp_all
  ultimately have y: "year a = year b" by (rule nat_of_digits4)
  have "month a div 10 = month b div 10"
    using eq(5) ma mb by (subst (asm) digit_char_inj) simp_all
  moreover have "month a mod 10 = month b mod 10"
    using eq(6) by (subst (asm) digit_char_inj) simp_all
  ultimately have m: "month a = month b" by (rule nat_of_digits2)
  have "day a div 10 = day b div 10"
    using eq(7) da db by (subst (asm) digit_char_inj) simp_all
  moreover have "day a mod 10 = day b mod 10"
    using eq(8) by (subst (asm) digit_char_inj) simp_all
  ultimately have d: "day a = day b" by (rule nat_of_digits2)
  show ?thesis using y m d by simp
qed

lemma length_ExitReason_value: "length (ExitReason_value r) = 9"
  by (cases r) simp_all

lemma ExitReason_value_inj: "ExitReason_value r1 = ExitReason_value r2 \<Longrightarrow> r1 = r2"
  by (cases r1; cases r2) simp_all

lemma entry_key_inj:
  assumes "valid_date d1" "valid_date d2"
    and "generate_entry_event_key s1 d1 = generate_entry_event_key s2 d2"
  shows "s1 = s2 \<and> d1 = d2"
proof -
  have "(s1 @ ''|'') @ isoformat d1 = (s2 @ ''|'') @ isoformat d2"
    using assms(3) by (simp add: generate_entry_event_key_def)
  then have "s1 @ ''|'' = s2 @ ''|'' \<and> isoformat d1 = isoformat d2"
    by (rule append_eq_append_conv[OF disjI2, THEN iffD1, rotated])
      (simp add: length_isoformat assms(1,2))
  then show ?thesis using isoformat_inj[OF assms(1,2)] by simp
qed

lemma exit_key_inj:
  assumes "valid_date e1" "valid_date e2" "valid_date x1" "valid_date x2"
    and "generate_exit_event_key s1 e1 x1 (ExitReason_value r1)
       = generate_exit_event_key s2 e2 x2 (ExitReason_value r2)"
  shows "s1 = s2 \<and> e1 = e2 \<and> x1 = x2 \<and> r1 = r2"
proof -
  let ?t1 = "isoformat x1 @ ''|'' @ ExitReason_value r1"
  let ?t2 = "isoformat x2 @ ''|'' @ ExitReason_value r2"
  have len: "length (isoformat e1 @ ''|'' @ ?t1) = length (isoformat e2 @ ''|'' @ ?t2)"
    using assms(1-4) by (simp add: length_isoformat length_ExitReason_value)
  have "(s1 @ ''|'') @ (isoformat e1 @ ''|'' @ ?t1) = (s2 @ ''|'') @ (isoformat e2 @ ''|'' @ ?t2)"
    using assms(5) by (simp add: generate_exit_event_key_def)
  then have "s1 @ ''|'' = s2 @ ''|'' \<and> isoformat e1 @ ''|'' @ ?t1 = isoformat e2 @ ''|'' @ ?t2"
    by (rule append_eq_append_conv[OF disjI2, THEN iffD1, rotated]) (rule len)
  then have a: "s1 @ ''|'' = s2 @ ''|''" and b: "isoformat e1 @ ''|'' @ ?t1 = isoformat e2 @ ''|'' @ ?t2"
    by simp_all
  from b have "isoformat e1 = isoformat e2 \<and> ''|'' @ ?t1 = ''|'' @ ?t2"
    by (rule append_eq_append_conv[OF disjI1, THEN iffD1, rotated])
      (simp add: length_isoformat assms(1,2))
  then have c: "isoformat e1 = isoformat e2" and d: "''|'' @ ?t1 = ''|'' @ ?t2"
    by simp_all
  from d have "isoformat x1 @ (''|'' @ ExitReason_value r1) = isoformat x2 @ (''|'' @ ExitReason_value r2)"
    by simp
  then have "isoformat x1 = isoformat x2 \<and> ''|'' @ ExitReason_value r1 = ''|'' @ ExitReason_value r2"
    by (rule append_eq_append_conv[OF disjI1, THEN iffD1, rotated])
      (simp add: length_isoformat assms(3,4))
  then have e: "isoformat x1 = isoformat x2" and f: "''|'' @ ExitReason_value r1 = ''|'' @ ExitReason_value r2"
    by simp_all
  show ?thesis
    using a isoformat_inj[OF assms(1,2) c] isoformat_inj[OF assms(3,4) e] f ExitReason_value_inj
    by simp
qed

section \<open>Decimal rounding\<close>

text \<open>The exponent of the leading digit.\<close>

lemma ndigits_pos: "0 < ndigits n"
  by (subst ndigits.simps) simp

lemma ndigits_bounds: "0 < n \<Longrightarrow> 10 ^ (ndigits n - 1) \<le> n \<and> n < 10 ^ ndigits n"
proof (induction n rule: ndigits.induct)
  case (1 n)
  show ?case
  proof (cases "n < 10")
    case True
    with "1.prems" show ?thesis by (simp add: ndigits.simps[of n])
  next
    case False
    then have pos: "0 < n div 10" by simp
    from "1.IH"[OF False pos]
    have lo: "10 ^ (ndigits (n div 10) - 1) \<le> n div 10" and hi: "n div 10 < 10 ^ ndigits (n div 10)"
      by simp_all
    have nd: "ndigits n = Suc (ndigits (n div 10))" using False by (simp add: ndigits.simps[of n])
    have "10 ^ (ndigits n - 1) = 10 * 10 ^ (ndigits (n div 10) - 1)"
      using ndigits_pos[of "n div 10"] by (cases "ndigits (n div 10)") (simp_all add: nd)
    also have "\<dots> \<le> 10 * (n div 10)" using lo by simp
    also have "\<dots> \<le> n" by simp
    finally have a: "10 ^ (ndigits n - 1) \<le> n" .
    have "n < 10 * (n div 10 + 1)" by (simp add: dividend_less_times_div)
    also have "\<dots> \<le> 10 * 10 ^ ndigits (n div 10)" using hi by simp
    finally have b: "n < 10 ^ ndigits n" by (simp add: nd)
    show ?thesis using a b by simp
  qed
qed

lemma adjusted_bounds:
  assumes "0 < x"
  shows "10 powi adjusted x \<le> x \<and> x < 10 powi (adjusted x + 1)"
proof (cases "1 \<le> x")
  case True
  define n where "n = nat \<lfloor>x\<rfloor>"
  have n1: "0 < n" using True by (simp add: n_def)
  have e: "adjusted x = int (ndigits n) - 1" using True by (simp add: adjusted_def n_def)
  have nx: "rat_of_nat n \<le> x" using True by (simp add: n_def)
  have xn: "x < rat_of_nat n + 1" using True floor_correct[of x] by (simp add: n_def)
  from ndigits_bounds[OF n1] have lo: "10 ^ (ndigits n - 1) \<le> n" and hi: "n < 10 ^ ndigits n"
    by simp_all
  have e': "adjusted x = int (ndigits n - 1)" using ndigits_pos[of n] e by simp
  have "(10::rat) powi adjusted x = 10 ^ (ndigits n - 1)" by (simp add: e')
  also have "\<dots> = rat_of_nat (10 ^ (ndigits n - 1))" by simp
  also have "\<dots> \<le> rat_of_nat n" using lo by (simp only: of_nat_le_iff)
  finally have a: "10 powi adjusted x \<le> x" using nx by simp
  have "n + 1 \<le> 10 ^ ndigits n" using hi by simp
  then have "rat_of_nat (n + 1) \<le> rat_of_nat (10 ^ ndigits n)" by (simp only: of_nat_le_iff)
  then have "rat_of_nat n + 1 \<le> 10 ^ ndigits n" by simp
  moreover have "(10::rat) powi (adjusted x + 1) = 10 ^ ndigits n" by (simp add: e)
  ultimately have b: "x < 10 powi (adjusted x + 1)" using xn by simp
  show ?thesis using a b by simp
next
  case False
  define m where "m = nat (\<lceil>1 / x\<rceil> - 1)"
  have x1: "x < 1" using False by simp
  have inv: "1 < 1 / x" using assms x1 by simp
  then have c2: "2 \<le> \<lceil>1 / x\<rceil>" using assms by (simp add: le_ceiling_iff)
  then have m1: "0 < m" unfolding m_def by linarith
  have "0 \<le> \<lceil>1 / x\<rceil> - 1" using c2 by linarith
  then have mi: "int m = \<lceil>1 / x\<rceil> - 1" unfolding m_def by (rule nat_0_le)
  have lt: "rat_of_nat m < 1 / x"
  proof -
    have "rat_of_int (\<lceil>1 / x\<rceil> - 1) < 1 / x" using ceiling_correct[of "1 / x"] by simp
    then show ?thesis using mi by (metis of_int_of_nat_eq)
  qed
  have le: "1 / x \<le> rat_of_nat m + 1"
  proof -
    have "1 / x \<le> rat_of_int \<lceil>1 / x\<rceil>" by simp
    also have "\<dots> = rat_of_int (int m) + 1" using mi by simp
    finally show ?thesis by simp
  qed
  have e: "adjusted x = - int (ndigits m)" using False by (simp add: adjusted_def m_def)
  from ndigits_bounds[OF m1] have lo: "10 ^ (ndigits m - 1) \<le> m" and hi: "m < 10 ^ ndigits m"
    by simp_all
  have "m + 1 \<le> 10 ^ ndigits m" using hi by simp
  then have "rat_of_nat (m + 1) \<le> rat_of_nat (10 ^ ndigits m)" by (simp only: of_nat_le_iff)
  then have "1 / x \<le> 10 ^ ndigits m" using le by simp
  then have "1 \<le> 10 ^ ndigits m * x" using assms by (simp add: field_simps)
  then have a: "10 powi adjusted x \<le> x"
    by (simp add: e power_int_minus field_simps)
  have "rat_of_nat (10 ^ (ndigits m - 1)) \<le> rat_of_nat m" using lo by (simp only: of_nat_le_iff)
  then have "(10::rat) ^ (ndigits m - 1) \<le> rat_of_nat m" by simp
  then have "10 ^ (ndigits m - 1) < 1 / x" using lt by (rule le_less_trans)
  then have "10 ^ (ndigits m - 1) * x < 1" using assms by (simp add: field_simps)
  moreover have "adjusted x + 1 = - int (ndigits m - 1)" using ndigits_pos[of m] e by simp
  ultimately have b: "x < 10 powi (adjusted x + 1)"
    by (simp add: power_int_minus field_simps)
  show ?thesis using a b by simp
qed


text \<open>Rounding half-even to an integer.\<close>

lemma rhe_cases:
  obtains (down) "round_half_even s = \<lfloor>s\<rfloor>" "s - of_int \<lfloor>s\<rfloor> < 1 / 2"
  | (up) "round_half_even s = \<lfloor>s\<rfloor> + 1" "1 / 2 < s - of_int \<lfloor>s\<rfloor>"
  | (tie_even) "round_half_even s = \<lfloor>s\<rfloor>" "s - of_int \<lfloor>s\<rfloor> = 1 / 2" "even \<lfloor>s\<rfloor>"
  | (tie_odd) "round_half_even s = \<lfloor>s\<rfloor> + 1" "s - of_int \<lfloor>s\<rfloor> = 1 / 2" "odd \<lfloor>s\<rfloor>"
  unfolding round_half_even_def Let_def
  by (cases "s - of_int \<lfloor>s\<rfloor> < 1 / 2"; cases "1 / 2 < s - of_int \<lfloor>s\<rfloor>"; cases "even \<lfloor>s\<rfloor>") auto





lemma rhe_ge: "rat_of_int m \<le> s \<Longrightarrow> m \<le> round_half_even s"
proof -
  assume a: "rat_of_int m \<le> s"
  then have "m \<le> \<lfloor>s\<rfloor>" by (simp add: le_floor_iff)
  then show ?thesis by (cases s rule: rhe_cases) simp_all
qed

lemma rhe_le: "s \<le> rat_of_int m \<Longrightarrow> round_half_even s \<le> m"
proof -
  assume a: "s \<le> rat_of_int m"
  have f1: "rat_of_int \<lfloor>s\<rfloor> \<le> s" by simp
  show ?thesis
  proof (cases s rule: rhe_cases)
    case down
    from a f1 have "rat_of_int \<lfloor>s\<rfloor> \<le> rat_of_int m" by linarith
    with down(1) show ?thesis by simp
  next
    case up
    with a have "rat_of_int \<lfloor>s\<rfloor> < rat_of_int m" by linarith
    with up(1) show ?thesis by simp
  next
    case tie_even
    from a f1 have "rat_of_int \<lfloor>s\<rfloor> \<le> rat_of_int m" by linarith
    with tie_even(1) show ?thesis by simp
  next
    case tie_odd
    with a have "rat_of_int \<lfloor>s\<rfloor> < rat_of_int m" by linarith
    with tie_odd(1) show ?thesis by simp
  qed
qed

text \<open>Rounding to 28 significant digits.\<close>

lemma dec_round_pos:
  "0 < x \<Longrightarrow> dec_round x =
     rat_of_int (round_half_even (x / 10 powi (adjusted x - 27))) * 10 powi (adjusted x - 27)"
  by (simp add: dec_round_def prec_def Let_def)



lemma scaled_bounds:
  assumes "0 < x"
  shows "10 ^ 27 \<le> x / 10 powi (adjusted x - 27)" and "x / 10 powi (adjusted x - 27) < 10 ^ 28"
proof -
  let ?e = "adjusted x"
  have p: "(0::rat) < 10 powi (?e - 27)" by simp
  from adjusted_bounds[OF assms] have lo: "10 powi ?e \<le> x" and hi: "x < 10 powi (?e + 1)"
    by simp_all
  have "?e = 27 + (?e - 27)" by simp
  then have "(10::rat) powi ?e = 10 powi (27 + (?e - 27))" by (rule arg_cong)
  also have "\<dots> = 10 powi 27 * 10 powi (?e - 27)" by (rule power_int_add) simp
  finally have a: "(10::rat) powi ?e = 10 ^ 27 * 10 powi (?e - 27)" by simp
  have "?e + 1 = 28 + (?e - 27)" by simp
  then have "(10::rat) powi (?e + 1) = 10 powi (28 + (?e - 27))" by (rule arg_cong)
  also have "\<dots> = 10 powi 28 * 10 powi (?e - 27)" by (rule power_int_add) simp
  finally have b: "(10::rat) powi (?e + 1) = 10 ^ 28 * 10 powi (?e - 27)" by simp
  show "10 ^ 27 \<le> x / 10 powi (?e - 27)"
    using lo p unfolding a by (simp add: pos_le_divide_eq)
  show "x / 10 powi (?e - 27) < 10 ^ 28"
    using hi p unfolding b by (simp add: pos_divide_less_eq)
qed

lemma dec_round_bounds:
  assumes "0 < x"
  shows "10 powi adjusted x \<le> dec_round x" and "dec_round x \<le> 10 powi (adjusted x + 1)"
proof -
  let ?e = "adjusted x"
  let ?s = "x / 10 powi (?e - 27)"
  have p: "(0::rat) < 10 powi (?e - 27)" by simp
  have "?e = 27 + (?e - 27)" by simp
  then have "(10::rat) powi ?e = 10 powi (27 + (?e - 27))" by (rule arg_cong)
  also have "\<dots> = 10 powi 27 * 10 powi (?e - 27)" by (rule power_int_add) simp
  finally have a: "(10::rat) powi ?e = 10 ^ 27 * 10 powi (?e - 27)" by simp
  have "?e + 1 = 28 + (?e - 27)" by simp
  then have "(10::rat) powi (?e + 1) = 10 powi (28 + (?e - 27))" by (rule arg_cong)
  also have "\<dots> = 10 powi 28 * 10 powi (?e - 27)" by (rule power_int_add) simp
  finally have b: "(10::rat) powi (?e + 1) = 10 ^ 28 * 10 powi (?e - 27)" by simp
  have "rat_of_int (10 ^ 27) \<le> ?s" using scaled_bounds(1)[OF assms] by simp
  then have "10 ^ 27 \<le> round_half_even ?s" by (rule rhe_ge)
  then have lo: "(10::rat) ^ 27 \<le> rat_of_int (round_half_even ?s)"
    by (metis of_int_le_iff of_int_numeral of_int_power)
  have "?s \<le> rat_of_int (10 ^ 28)" using scaled_bounds(2)[OF assms] by simp
  then have "round_half_even ?s \<le> 10 ^ 28" by (rule rhe_le)
  then have hi: "rat_of_int (round_half_even ?s) \<le> (10::rat) ^ 28"
    by (metis of_int_le_iff of_int_numeral of_int_power)
  show "10 powi ?e \<le> dec_round x"
    unfolding dec_round_pos[OF assms] a using lo p by (simp add: mult_right_mono)
  show "dec_round x \<le> 10 powi (?e + 1)"
    unfolding dec_round_pos[OF assms] b using hi p by (simp add: mult_right_mono)
qed



lemma dec_round_pos_pos: "0 < x \<Longrightarrow> 0 < dec_round x"
proof -
  assume pos: "0 < x"
  have "(0::rat) < 10 powi adjusted x" by simp
  with dec_round_bounds(1)[OF pos] show ?thesis by linarith
qed















section \<open>Event keys\<close>

text \<open>
  C4. The entry key is \<open>"ENTRY|" + symbol + "|" + isoformat(as_of)\<close>, the exit key is
  \<open>"EXIT|" + symbol + "|" + isoformat(entry_date) + "|" + isoformat(exit_date) + "|" + reason\<close>
  with the reason one of the two values of \<open>ExitReason\<close>. Both are functions of their
  inputs, and two input tuples (of valid dates) have the same key only when they agree in
  every field.
\<close>

theorem event_keys_collision_free:
  assumes "valid_date d1" "valid_date d2" "valid_date e1" "valid_date e2"
    and "valid_date x1" "valid_date x2"
  shows "generate_entry_event_key s1 d1 = ''ENTRY|'' @ s1 @ ''|'' @ isoformat d1
    \<and> generate_exit_event_key s1 e1 x1 (ExitReason_value r1) =
        ''EXIT|'' @ s1 @ ''|'' @ isoformat e1 @ ''|'' @ isoformat x1 @ ''|'' @ ExitReason_value r1
    \<and> (generate_entry_event_key s1 d1 = generate_entry_event_key s2 d2 \<longleftrightarrow> s1 = s2 \<and> d1 = d2)
    \<and> (generate_exit_event_key s1 e1 x1 (ExitReason_value r1) =
          generate_exit_event_key s2 e2 x2 (ExitReason_value r2)
        \<longleftrightarrow> s1 = s2 \<and> e1 = e2 \<and> x1 = x2 \<and> r1 = r2)"
proof -
  have a: "generate_entry_event_key s1 d1 = generate_entry_event_key s2 d2 \<longleftrightarrow> s1 = s2 \<and> d1 = d2"
    using entry_key_inj[OF assms(1,2)] by blast
  have b: "generate_exit_event_key s1 e1 x1 (ExitReason_value r1) =
          generate_exit_event_key s2 e2 x2 (ExitReason_value r2)
        \<longleftrightarrow> s1 = s2 \<and> e1 = e2 \<and> x1 = x2 \<and> r1 = r2"
    using exit_key_inj[OF assms(3-6)] by blast
  show ?thesis
    using a b by (simp add: generate_entry_event_key_def generate_exit_event_key_def)
qed

text \<open>The keys of the test suite, and an instance of the theorem on them.\<close>

lemma example_dates_valid:
  "valid_date \<lparr>year = 2025, month = 12, day = 1\<rparr>"
  "valid_date \<lparr>year = 2025, month = 12, day = 2\<rparr>"
  "valid_date \<lparr>year = 2025, month = 12, day = 20\<rparr>"
  "valid_date \<lparr>year = 2025, month = 12, day = 21\<rparr>"
  by (simp_all add: valid_date_def days_in_month_def is_leap_def)

lemma example_keys:
  "generate_entry_event_key ''AAPL'' \<lparr>year = 2025, month = 12, day = 1\<rparr> = ''ENTRY|AAPL|2025-12-01''"
  "generate_exit_event_key ''AAPL'' \<lparr>year = 2025, month = 12, day = 1\<rparr>
     \<lparr>year = 2025, month = 12, day = 20\<rparr> (ExitReason_value STOP_LOSS)
   = ''EXIT|AAPL|2025-12-01|2025-12-20|STOP_LOSS''"
  by code_simp+

theorem event_keys_collision_free_witness:
  "valid_date \<lparr>year = 2025, month = 12, day = 1\<rparr>
   \<and> valid_date \<lparr>year = 2025, month = 12, day = 2\<rparr>
   \<and> valid_date \<lparr>year = 2025, month = 12, day = 20\<rparr>
   \<and> valid_date \<lparr>year = 2025, month = 12, day = 21\<rparr>
   \<and> generate_entry_event_key ''AAPL'' \<lparr>year = 2025, month = 12, day = 1\<rparr>
       \<noteq> generate_entry_event_key ''AAPL'' \<lparr>year = 2025, month = 12, day = 2\<rparr>
   \<and> generate_exit_event_key ''AAPL'' \<lparr>year = 2025, month = 12, day = 1\<rparr>
         \<lparr>year = 2025, month = 12, day = 20\<rparr> (ExitReason_value STOP_LOSS)
       \<noteq> generate_exit_event_key ''AAPL'' \<lparr>year = 2025, month = 12, day = 1\<rparr>
         \<lparr>year = 2025, month = 12, day = 21\<rparr> (ExitReason_value TIME_EXIT)"
proof -
  note t = event_keys_collision_free[OF example_dates_valid(1,2) example_dates_valid(1,1)
      example_dates_valid(3,4), of "''AAPL''" STOP_LOSS "''AAPL''" TIME_EXIT]
  have "generate_entry_event_key ''AAPL'' \<lparr>year = 2025, month = 12, day = 1\<rparr>
       \<noteq> generate_entry_event_key ''AAPL'' \<lparr>year = 2025, month = 12, day = 2\<rparr>"
    using t[THEN conjunct2, THEN conjunct2, THEN conjunct1] by simp
  moreover have "generate_exit_event_key ''AAPL'' \<lparr>year = 2025, month = 12, day = 1\<rparr>
         \<lparr>year = 2025, month = 12, day = 20\<rparr> (ExitReason_value STOP_LOSS)
       \<noteq> generate_exit_event_key ''AAPL'' \<lparr>year = 2025, month = 12, day = 1\<rparr>
         \<lparr>year = 2025, month = 12, day = 21\<rparr> (ExitReason_value TIME_EXIT)"
    using t[THEN conjunct2, THEN conjunct2, THEN conjunct2] by simp
  ultimately show ?thesis using example_dates_valid by blast
qed

section \<open>Entry signal\<close>




section \<open>Exit evaluation\<close>




section \<open>Retrying requests\<close>

lemma wait_exponential_bounds:
  "2 \<le> wait_exponential 1 2 10 k \<and> wait_exponential 1 2 10 k \<le> 10"
  by (simp add: wait_exponential_def)

lemma retrying_success:
  "request_once (src k) = Inr body \<Longrightarrow> retrying k src = (Inr body, k, [])"
  by (simp add: retrying.simps[of k])

lemma retrying_raise:
  "request_once (src k) = Inl e \<Longrightarrow> \<not> retry_if_exception_type e \<Longrightarrow>
   retrying k src = (Inl e, k, [])"
  by (simp add: retrying.simps[of k])

lemma retrying_stop:
  "request_once (src k) = Inl e \<Longrightarrow> stop_after_attempt \<le> k \<Longrightarrow>
   retrying k src = (Inl e, k, [])"
  by (simp add: retrying.simps[of k])

lemma retrying_again:
  "request_once (src k) = Inl e \<Longrightarrow> retry_if_exception_type e \<Longrightarrow> k < stop_after_attempt \<Longrightarrow>
   retrying k src =
     (case retrying (Suc k) src of (r, m, ws) \<Rightarrow> (r, m, wait_exponential 1 2 10 k # ws))"
  by (simp add: retrying.simps[of k])

text \<open>
  What a retrying call from attempt \<open>k\<close> on does: it ends with the outcome of its last
  attempt \<open>m\<close>, every attempt before \<open>m\<close> raised an error of a retried kind, it slept once
  between two attempts, and it stops before the limit only on a success or on an error
  that is not retried.
\<close>

lemma retrying_spec:
  assumes "1 \<le> k" "k \<le> stop_after_attempt" "retrying k src = (r, m, ws)"
  shows "k \<le> m \<and> m \<le> stop_after_attempt \<and> r = request_once (src m)
    \<and> length ws = m - k
    \<and> (\<forall>w \<in> set ws. 2 \<le> w \<and> w \<le> 10)
    \<and> (\<forall>j. k \<le> j \<and> j < m \<longrightarrow>
          (\<exists>e. request_once (src j) = Inl e \<and> retry_if_exception_type e))
    \<and> (m < stop_after_attempt \<longrightarrow> (\<forall>e. r = Inl e \<longrightarrow> \<not> retry_if_exception_type e))"
  using assms
proof (induction k src arbitrary: r m ws rule: retrying.induct)
  case (1 k src)
  show ?case
  proof (cases "request_once (src k)")
    case (Inr body)
    from "1.prems"(3) show ?thesis
      unfolding retrying_success[of src k body, OF Inr] using Inr "1.prems"(2) by auto
  next
    case (Inl e)
    show ?thesis
    proof (cases "retry_if_exception_type e \<and> k < stop_after_attempt")
      case False
      then have "retrying k src = (Inl e, k, [])"
        using Inl retrying_raise[of src k e, OF Inl] retrying_stop[of src k e, OF Inl] by force
      with "1.prems"(3) have "r = Inl e" "m = k" "ws = []" by simp_all
      with Inl False "1.prems"(2) show ?thesis by auto
    next
      case True
      obtain r' m' ws' where rec: "retrying (Suc k) src = (r', m', ws')"
        by (cases "retrying (Suc k) src") auto
      have k1: "1 \<le> Suc k" "Suc k \<le> stop_after_attempt" using True by simp_all
      from "1.IH"[OF Inl True k1 rec]
      have ih: "Suc k \<le> m'" "m' \<le> stop_after_attempt" "r' = request_once (src m')"
        "length ws' = m' - Suc k" "\<forall>w \<in> set ws'. 2 \<le> w \<and> w \<le> 10"
        "\<forall>j. Suc k \<le> j \<and> j < m' \<longrightarrow>
          (\<exists>e. request_once (src j) = Inl e \<and> retry_if_exception_type e)"
        "m' < stop_after_attempt \<longrightarrow> (\<forall>e. r' = Inl e \<longrightarrow> \<not> retry_if_exception_type e)"
        by simp_all
      from "1.prems"(3) have eq: "r = r'" "m = m'" "ws = wait_exponential 1 2 10 k # ws'"
        using True rec unfolding retrying_again[of src k e, OF Inl conjunct1[OF True] conjunct2[OF True]]
        by simp_all
      have prev: "\<forall>j. k \<le> j \<and> j < m' \<longrightarrow>
          (\<exists>e. request_once (src j) = Inl e \<and> retry_if_exception_type e)"
      proof (intro allI impI)
        fix j assume j: "k \<le> j \<and> j < m'"
        show "\<exists>e. request_once (src j) = Inl e \<and> retry_if_exception_type e"
        proof (cases "j = k")
          case True
          with Inl \<open>retry_if_exception_type e \<and> k < stop_after_attempt\<close> show ?thesis by blast
        next
          case False
          with j have "Suc k \<le> j \<and> j < m'" by simp
          with ih(6) show ?thesis by blast
        qed
      qed
      have len: "length ws = m - k" using eq ih(1,4) by simp
      have w: "\<forall>w \<in> set ws. 2 \<le> w \<and> w \<le> 10"
        using eq(3) ih(5) wait_exponential_bounds[of k] by simp
      show ?thesis
        using eq ih(1,2,3,7) prev len w by auto
    qed
  qed
qed

lemma request_once_cases:
  "request_once (Response 429 body) = Inl FMPRateLimitError"
  "status_code \<noteq> 429 \<Longrightarrow> \<not> (200 \<le> status_code \<and> status_code \<le> 299) \<Longrightarrow>
     request_once (Response status_code body) = Inl (HTTPStatusError status_code)"
  "200 \<le> status_code \<Longrightarrow> status_code \<le> 299 \<Longrightarrow>
     request_once (Response status_code body) = Inr body"
  by simp_all

text \<open>
  C5, as stated, fails in its last part: a client error is retried. A request that is
  answered 404 at every attempt is attempted three times, with two waits of 2 seconds.
\<close>

theorem client_error_retried_counterexample:
  "retrying 1 always_404 = (Inl (HTTPStatusError 404), 3, [2, 2])"
  by (simp add: retrying.simps[of 1] retrying.simps[of 2] retrying.simps[of "Suc 0"]
      retrying.simps[of "Suc (Suc 0)"] retrying.simps[of 3] retrying.simps[of "Suc 2"] retrying.simps[of "Suc (Suc (Suc 0))"]
      always_404_def stop_after_attempt_def wait_exponential_def numeral_2_eq_2 numeral_3_eq_3)

text \<open>
  C5, amended. Every request makes at least one and at most three attempts and ends with
  the outcome of its last attempt. An attempt that times out or is answered with an HTTP
  status outside 200..299 other than 429, server errors and client errors alike, raises an
  error of a retried kind: it is followed by another attempt while fewer than three were
  made, after a wait between 2 and 10 seconds. A response with status 429 raises the
  rate-limit error, which is distinct from a status error and is not retried; a failure of
  the transport that is not a timeout is not retried either. Only errors of a retried kind
  are ever followed by another attempt.
\<close>

theorem request_retry_policy:
  assumes "retrying 1 src = (r, m, ws)"
  shows "1 \<le> m \<and> m \<le> 3 \<and> r = request_once (src m) \<and> request client ep = fst (retrying 1 (client ep))
    \<and> length ws = m - 1 \<and> (\<forall>w \<in> set ws. 2 \<le> w \<and> w \<le> 10)
    \<and> (\<forall>j. 1 \<le> j \<and> j < m \<longrightarrow>
          (\<exists>e. request_once (src j) = Inl e \<and> retry_if_exception_type e))
    \<and> (m < 3 \<longrightarrow> (\<forall>e. r = Inl e \<longrightarrow> \<not> retry_if_exception_type e))
    \<and> request_once Timeout = Inl TimeoutException \<and> retry_if_exception_type TimeoutException
    \<and> (\<forall>c body. c \<noteq> 429 \<and> \<not> (200 \<le> c \<and> c \<le> 299) \<longrightarrow>
          request_once (Response c body) = Inl (HTTPStatusError c)
          \<and> retry_if_exception_type (HTTPStatusError c))
    \<and> (\<forall>body. request_once (Response 429 body) = Inl FMPRateLimitError)
    \<and> \<not> retry_if_exception_type FMPRateLimitError
    \<and> (\<forall>c. FMPRateLimitError \<noteq> HTTPStatusError c)
    \<and> request_once ConnectFailure = Inl TransportError \<and> \<not> retry_if_exception_type TransportError"
proof -
  have k: "(1::nat) \<le> 1" "1 \<le> stop_after_attempt" by (simp_all add: stop_after_attempt_def)
  from retrying_spec[OF k assms]
  have "1 \<le> m \<and> m \<le> 3 \<and> r = request_once (src m) \<and> length ws = m - 1
    \<and> (\<forall>w \<in> set ws. 2 \<le> w \<and> w \<le> 10)
    \<and> (\<forall>j. 1 \<le> j \<and> j < m \<longrightarrow>
          (\<exists>e. request_once (src j) = Inl e \<and> retry_if_exception_type e))
    \<and> (m < 3 \<longrightarrow> (\<forall>e. r = Inl e \<longrightarrow> \<not> retry_if_exception_type e))"
    by (simp add: stop_after_attempt_def)
  then show ?thesis by (simp add: request_def)
qed

theorem request_retry_policy_witness:
  "retrying 1 recovering = (Inr (JList []), 3, [2, 2])
   \<and> retrying 1 rate_limited = (Inl FMPRateLimitError, 1, [])
   \<and> (\<exists>e. request_once (recovering 2) = Inl e \<and> retry_if_exception_type e)"
proof -
  have a: "retrying 1 recovering = (Inr (JList []), 3, [2, 2])"
    by (simp add: retrying.simps[of 1] retrying.simps[of 2] retrying.simps[of "Suc 0"]
      retrying.simps[of "Suc (Suc 0)"] retrying.simps[of 3] retrying.simps[of "Suc 2"] retrying.simps[of "Suc (Suc (Suc 0))"]
      recovering_def stop_after_attempt_def wait_exponential_def numeral_2_eq_2 numeral_3_eq_3)
  have b: "retrying 1 rate_limited = (Inl FMPRateLimitError, 1, [])"
    by (simp add: retrying.simps[of 1] retrying.simps[of "Suc 0"] rate_limited_def)
  from request_retry_policy[OF a] have "\<forall>j. 1 \<le> j \<and> j < 3 \<longrightarrow>
          (\<exists>e. request_once (recovering j) = Inl e \<and> retry_if_exception_type e)"
    by blast
  then have "\<exists>e. request_once (recovering 2) = Inl e \<and> retry_if_exception_type e"
    by simp
  with a b show ?thesis by blast
qed

section \<open>Symbol universe\<close>





lemma get_sp500_symbols_error:
  "\<not> cache_valid ttl_hours now (symbols_cache s) \<Longrightarrow>
   get_sp500_constituents client = Inl e \<Longrightarrow>
   get_sp500_symbols client ttl_hours now s = Inl e"
  by (simp add: get_sp500_symbols_def)





section \<open>Price of a day and of the trading day before\<close>

lemma first_index_None: "first_index P xs = None \<longleftrightarrow> (\<forall>x \<in> set xs. \<not> P x)"
  by (induction xs) auto

lemma first_index_Some:
  "first_index P xs = Some i \<Longrightarrow> i < length xs \<and> P (xs ! i) \<and> (\<forall>j < i. \<not> P (xs ! j))"
proof (induction xs arbitrary: i)
  case Nil
  then show ?case by simp
next
  case (Cons x xs)
  show ?case
  proof (cases "P x")
    case True
    with Cons.prems show ?thesis by simp
  next
    case False
    with Cons.prems obtain k where k: "first_index P xs = Some k" and i: "i = Suc k"
      by auto
    from Cons.IH[OF k] have "k < length xs" "P (xs ! k)" "\<forall>j < k. \<not> P (xs ! j)" by simp_all
    with False i show ?thesis by (auto simp: less_Suc_eq_0_disj)
  qed
qed

lemma get_historical_prices_length:
  "get_historical_prices client symbol n = Inr historical \<Longrightarrow> length historical \<le> n"
  by (auto simp: get_historical_prices_def split: sum.splits json.splits)

lemma price_pair_absent_date:
  "Some as_of_str \<notin> set (map item_date historical) \<Longrightarrow> price_pair historical as_of_str = None"
proof -
  assume "Some as_of_str \<notin> set (map item_date historical)"
  then have "\<forall>x \<in> set historical. \<not> item_date x = Some as_of_str" by force
  then have "first_index (\<lambda>it. item_date it = Some as_of_str) historical = None"
    by (simp only: first_index_None)
  then show ?thesis by (simp add: price_pair_def)
qed

lemma price_pair_no_previous:
  "first_index (\<lambda>it. item_date it = Some as_of_str) historical = Some i
   \<Longrightarrow> length historical \<le> i + 1 \<Longrightarrow> price_pair historical as_of_str = None"
  by (simp add: price_pair_def)

lemma price_pair_Some:
  assumes "price_pair historical as_of_str = Some (c, p)"
  shows "\<exists>i. first_index (\<lambda>it. item_date it = Some as_of_str) historical = Some i
    \<and> i + 1 < length historical
    \<and> item_date (historical ! i) = Some as_of_str
    \<and> (\<forall>j < i. item_date (historical ! j) \<noteq> Some as_of_str)
    \<and> item_close (historical ! i) = Some c
    \<and> item_close (historical ! (i + 1)) = Some p"
proof -
  from assms obtain i where i: "first_index (\<lambda>it. item_date it = Some as_of_str) historical = Some i"
    by (auto simp: price_pair_def split: if_splits option.splits)
  from assms i have len: "i + 1 < length historical"
    by (auto simp: price_pair_def split: if_splits)
  from assms i len have cl: "item_close (historical ! i) = Some c"
      "item_close (historical ! (i + 1)) = Some p"
    by (auto simp: price_pair_def split: if_splits option.splits)
  from first_index_Some[OF i] i len cl show ?thesis by blast
qed

text \<open>
  C9. Whenever the history of the symbol is obtained, the lookback window has at most 20
  records, newest first. The result is absent when no record of the window carries the
  requested date, and when the first record that carries it is the last of the window (no
  earlier trading day). A returned pair is the close of the first record that carries the
  date and the close of the record that follows it in the window.
\<close>

theorem price_data_for_date:
  assumes "get_historical_prices client symbol 20 = Inr historical"
  shows "length historical \<le> 20
    \<and> (Some (strftime_Ymd d) \<notin> set (map item_date historical) \<longrightarrow>
          get_price_data_for_date client symbol d = Inr None)
    \<and> (\<forall>i. first_index (\<lambda>it. item_date it = Some (strftime_Ymd d)) historical = Some i
            \<and> length historical \<le> i + 1 \<longrightarrow>
          get_price_data_for_date client symbol d = Inr None)
    \<and> (\<forall>c p. get_price_data_for_date client symbol d = Inr (Some (c, p)) \<longrightarrow>
          (\<exists>i. first_index (\<lambda>it. item_date it = Some (strftime_Ymd d)) historical = Some i
             \<and> i + 1 < length historical
             \<and> item_date (historical ! i) = Some (strftime_Ymd d)
             \<and> (\<forall>j < i. item_date (historical ! j) \<noteq> Some (strftime_Ymd d))
             \<and> item_close (historical ! i) = Some c
             \<and> item_close (historical ! (i + 1)) = Some p))"
proof -
  have g: "get_price_data_for_date client symbol d = Inr (price_pair historical (strftime_Ymd d))"
    using assms by (simp add: get_price_data_for_date_def)
  have a: "length historical \<le> 20"
    by (rule get_historical_prices_length[OF assms])
  have b: "Some (strftime_Ymd d) \<notin> set (map item_date historical) \<longrightarrow>
          get_price_data_for_date client symbol d = Inr None"
    unfolding g using price_pair_absent_date[of "strftime_Ymd d" historical] by blast
  have c: "\<forall>i. first_index (\<lambda>it. item_date it = Some (strftime_Ymd d)) historical = Some i
            \<and> length historical \<le> i + 1 \<longrightarrow>
          get_price_data_for_date client symbol d = Inr None"
    unfolding g using price_pair_no_previous[of "strftime_Ymd d" historical] by blast
  have e: "\<forall>c p. get_price_data_for_date client symbol d = Inr (Some (c, p)) \<longrightarrow>
          (\<exists>i. first_index (\<lambda>it. item_date it = Some (strftime_Ymd d)) historical = Some i
             \<and> i + 1 < length historical
             \<and> item_date (historical ! i) = Some (strftime_Ymd d)
             \<and> (\<forall>j < i. item_date (historical ! j) \<noteq> Some (strftime_Ymd d))
             \<and> item_close (historical ! i) = Some c
             \<and> item_close (historical ! (i + 1)) = Some p)"
    unfolding g using price_pair_Some[of historical "strftime_Ymd d"] by simp
  show ?thesis using a b c e by blast
qed

lemma example_request: "request example_client ep = Inr (JList example_history)"
  by (simp add: request_def retrying.simps example_client_def)

lemma example_historical:
  "get_historical_prices example_client ''AAPL'' 20 = Inr example_history"
  by (simp add: get_historical_prices_def example_request example_history_def)

lemma example_strftime:
  "strftime_Ymd \<lparr>year = 2025, month = 1, day = 15\<rparr> = ''2025-01-15''"
  "strftime_Ymd \<lparr>year = 2025, month = 1, day = 13\<rparr> = ''2025-01-13''"
  "strftime_Ymd \<lparr>year = 2025, month = 1, day = 18\<rparr> = ''2025-01-18''"
  by code_simp+

theorem price_data_for_date_witness:
  "get_historical_prices example_client ''AAPL'' 20 = Inr example_history
   \<and> get_price_data_for_date example_client ''AAPL'' \<lparr>year = 2025, month = 1, day = 15\<rparr>
       = Inr (Some (150, 148))
   \<and> get_price_data_for_date example_client ''AAPL'' \<lparr>year = 2025, month = 1, day = 18\<rparr>
       = Inr None
   \<and> get_price_data_for_date example_client ''AAPL'' \<lparr>year = 2025, month = 1, day = 13\<rparr>
       = Inr None"
proof -
  note t = price_data_for_date[OF example_historical]
  have a: "get_price_data_for_date example_client ''AAPL'' \<lparr>year = 2025, month = 1, day = 15\<rparr>
       = Inr (Some (150, 148))"
    unfolding get_price_data_for_date_def example_historical example_strftime
    by (simp add: price_pair_def example_history_def)
  have "Some (strftime_Ymd \<lparr>year = 2025, month = 1, day = 18\<rparr>)
      \<notin> set (map item_date example_history)"
    unfolding example_strftime by (simp add: example_history_def)
  with t[of "\<lparr>year = 2025, month = 1, day = 18\<rparr>"]
  have b: "get_price_data_for_date example_client ''AAPL'' \<lparr>year = 2025, month = 1, day = 18\<rparr>
       = Inr None" by blast
  have "first_index (\<lambda>it. item_date it = Some (strftime_Ymd \<lparr>year = 2025, month = 1, day = 13\<rparr>))
      example_history = Some 2 \<and> length example_history \<le> 2 + 1"
    unfolding example_strftime by (simp add: example_history_def)
  with t[of "\<lparr>year = 2025, month = 1, day = 13\<rparr>"]
  have c: "get_price_data_for_date example_client ''AAPL'' \<lparr>year = 2025, month = 1, day = 13\<rparr>
       = Inr None" by blast
  from example_historical a b c show ?thesis by blast
qed

section \<open>Acknowledging an alert\<close>



lemma find_alert_id: "find (\<lambda>a. alert_id a = aid) xs = Some a \<Longrightarrow> alert_id a = aid \<and> a \<in> set xs"
  by (auto simp: find_Some_iff)

lemma mark_alert_sent_unsent:
  assumes "find (\<lambda>a. alert_id a = aid) (alerts s) = Some a" "sent_at a = None"
  shows "mark_alert_sent aid now s =
    Inr (s\<lparr>alerts := map (\<lambda>a. if alert_id a = aid then a\<lparr>sent_at := Some now\<rparr> else a) (alerts s)\<rparr>,
         \<lparr>success = True, response_id = aid, response_sent_at = Some now\<rparr>)"
  using assms find_alert_id[OF assms(1)] by (simp add: mark_alert_sent_def)

lemma mark_alert_sent_sent:
  assumes "find (\<lambda>a. alert_id a = aid) (alerts s) = Some a" "sent_at a = Some t"
  shows "mark_alert_sent aid now s =
    Inr (s, \<lparr>success = True, response_id = aid, response_sent_at = Some t\<rparr>)"
  using assms find_alert_id[OF assms(1)] by (simp add: mark_alert_sent_def)

lemma mark_alert_sent_missing:
  assumes "find (\<lambda>a. alert_id a = aid) (alerts s) = None"
  shows "mark_alert_sent aid now s = Inl (HTTPException 404)"
  using assms by (simp add: mark_alert_sent_def)





text \<open>
  C10. A successful call leaves the positions, the symbol cache and the number and order of
  the alerts as they were; every alert keeps its id, event key, type, symbol, date, message
  and creation time; alerts with another id are unchanged, and the alert with this id
  differs from what it was in \<open>sent_at\<close> at most.
\<close>

theorem mark_alert_sent_frame:
  assumes "mark_alert_sent aid now s = Inr (s', r)"
  shows "positions s' = positions s \<and> symbols_cache s' = symbols_cache s
    \<and> uuid_counter s' = uuid_counter s
    \<and> length (alerts s') = length (alerts s)
    \<and> (\<forall>i < length (alerts s).
          alerts s' ! i = (alerts s ! i)\<lparr>sent_at := sent_at (alerts s' ! i)\<rparr>
          \<and> alert_id (alerts s' ! i) = alert_id (alerts s ! i)
          \<and> event_key (alerts s' ! i) = event_key (alerts s ! i)
          \<and> alert_type (alerts s' ! i) = alert_type (alerts s ! i)
          \<and> alert_symbol (alerts s' ! i) = alert_symbol (alerts s ! i)
          \<and> as_of (alerts s' ! i) = as_of (alerts s ! i)
          \<and> message (alerts s' ! i) = message (alerts s ! i)
          \<and> created_at (alerts s' ! i) = created_at (alerts s ! i)
          \<and> (alert_id (alerts s ! i) \<noteq> aid \<longrightarrow> alerts s' ! i = alerts s ! i))"
proof (cases "find (\<lambda>a. alert_id a = aid) (alerts s)")
  case None
  with assms show ?thesis by (simp add: mark_alert_sent_missing)
next
  case (Some a)
  show ?thesis
  proof (cases "sent_at a")
    case None
    from assms have s': "s' = s\<lparr>alerts := map (\<lambda>a. if alert_id a = aid then a\<lparr>sent_at := Some now\<rparr> else a) (alerts s)\<rparr>"
      unfolding mark_alert_sent_unsent[OF Some None] by simp
    show ?thesis unfolding s' by simp
  next
    case (Some t)
    from assms have "s' = s"
      unfolding mark_alert_sent_sent[OF \<open>find (\<lambda>a. alert_id a = aid) (alerts s) = Some a\<close> Some]
      by simp
    then show ?thesis by simp
  qed
qed

theorem mark_alert_sent_frame_witness:
  "mark_alert_sent 7 5000 example_store =
     Inr (example_store\<lparr>alerts := [example_alert\<lparr>sent_at := Some 5000\<rparr>]\<rparr>,
          \<lparr>success = True, response_id = 7, response_sent_at = Some 5000\<rparr>)
   \<and> positions (example_store\<lparr>alerts := [example_alert\<lparr>sent_at := Some 5000\<rparr>]\<rparr>)
       = positions example_store
   \<and> event_key (alerts (example_store\<lparr>alerts := [example_alert\<lparr>sent_at := Some 5000\<rparr>]\<rparr>) ! 0)
       = event_key (alerts example_store ! 0)"
proof -
  have m: "mark_alert_sent 7 5000 example_store =
     Inr (example_store\<lparr>alerts := [example_alert\<lparr>sent_at := Some 5000\<rparr>]\<rparr>,
          \<lparr>success = True, response_id = 7, response_sent_at = Some 5000\<rparr>)"
    by (simp add: mark_alert_sent_def example_store_def example_alert_def)
  have l: "0 < length (alerts example_store)" by (simp add: example_store_def)
  from mark_alert_sent_frame[OF m] l show ?thesis using m by blast
qed

end
